theory Spec2Isabelle
  imports Main "HOL-Library.Sublist"
begin

section \<open>JavaScript strings\<close>

text \<open>
  Strings are byte lists (the UTF-8 text of the JavaScript string). The scripts use
  \<^verbatim>\<open>toLowerCase\<close> only in front of \<^verbatim>\<open>endsWith('.csv')\<close>: the model folds the
  ASCII capitals and leaves every other byte alone. No character outside ASCII lowers to
  one of the four characters of \<^verbatim>\<open>.csv\<close>, so the test has the value the browser computes.
\<close>

definition upper_lower :: "(char \<times> char) list" where
  "upper_lower = zip ''ABCDEFGHIJKLMNOPQRSTUVWXYZ'' ''abcdefghijklmnopqrstuvwxyz''"

definition toLowerChar :: "char \<Rightarrow> char" where
  "toLowerChar c = (case map_of upper_lower c of Some l \<Rightarrow> l | None \<Rightarrow> c)"

definition toLowerCase :: "string \<Rightarrow> string" where
  "toLowerCase s = map toLowerChar s"

text \<open>\<^verbatim>\<open>s.endsWith(t)\<close>: the last \<open>length t\<close> characters of \<open>s\<close> are \<open>t\<close>.\<close>

definition endsWith :: "string \<Rightarrow> string \<Rightarrow> bool" where
  "endsWith s t = (length t \<le> length s \<and> drop (length s - length t) s = t)"

text \<open>\<^verbatim>\<open>s.includes(t)\<close>: \<open>t\<close> starts at some position of \<open>s\<close>.\<close>

fun includes_str :: "string \<Rightarrow> string \<Rightarrow> bool" where
  "includes_str [] t = (t = [])"
| "includes_str (c # s) t = (prefix t (c # s) \<or> includes_str s t)"

text \<open>The tokens of a \<^verbatim>\<open>class\<close> attribute, separated by ASCII white space.\<close>

definition ascii_space :: "char \<Rightarrow> bool" where
  "ascii_space c = (c \<in> set [CHR 0x09, CHR 0x0A, CHR 0x0C, CHR 0x0D, CHR 0x20])"

fun class_tokens :: "string \<Rightarrow> string \<Rightarrow> string list" where
  "class_tokens acc [] = (if acc = [] then [] else [acc])"
| "class_tokens acc (c # s) =
     (if ascii_space c then (if acc = [] then [] else [acc]) @ class_tokens [] s
      else class_tokens (acc @ [c]) s)"

section \<open>The page\<close>

text \<open>
  An element of the document: \<open>el_key\<close> is the identity of the JavaScript object (two
  references are the same element when the keys agree), \<open>el_html\<close> the markup last
  written to \<^verbatim>\<open>innerHTML\<close>. The document is the list of its elements in document order:
  the elements of the template and those the scripts attach.

  The list has no parent and child relation, and markup written to \<^verbatim>\<open>innerHTML\<close>
  is kept as text. The browser parses the markup into children and drops the children the
  element had. The two agree where the markup parses into no element the scripts look up,
  which holds for the fixed markup of the scripts and for every interpolated text without
  \<^verbatim>\<open><\<close>, and where nothing the scripts look up lies inside the element written to. The
  theorems on the change handlers carry these conditions (\<open>error_host_outside\<close>,
  \<open>info_not_container\<close>, a file name without \<^verbatim>\<open><\<close>).

  The page carries the file input with id \<^verbatim>\<open>dataset\<close> (its \<^verbatim>\<open>files\<close> and \<^verbatim>\<open>value\<close>)
  and the fields with ids \<^verbatim>\<open>product\<close> and \<^verbatim>\<open>days\<close>; the templates that
  lay the page out are not among the sources, so everything else about the document is a
  parameter. \<open>timers\<close> holds the timers \<^verbatim>\<open>setTimeout\<close> has started and that have not run
  yet: the milliseconds still to wait and the element the callback closes.
\<close>

record element =
  el_key :: nat
  el_id :: string
  el_class :: string
  el_html :: string

record file_desc =
  file_name :: string
  file_size :: nat

record page =
  doc :: "element list"
  next_key :: nat
  input_files :: "file_desc list"
  input_value :: string
  product_value :: string
  days_value :: string
  timers :: "(nat \<times> nat) list"

datatype js_error = TypeError

definition createElement :: "page \<Rightarrow> element \<times> page" where
  "createElement p =
     (\<lparr>el_key = next_key p, el_id = [], el_class = [], el_html = []\<rparr>,
      p\<lparr>next_key := Suc (next_key p)\<rparr>)"

definition getElementById :: "string \<Rightarrow> page \<Rightarrow> element option" where
  "getElementById i p = find (\<lambda>e. el_id e = i) (doc p)"

definition has_class :: "string \<Rightarrow> element \<Rightarrow> bool" where
  "has_class c e = (c \<in> set (class_tokens [] (el_class e)))"

text \<open>\<^verbatim>\<open>document.querySelector('.c')\<close>: the first element carrying the class.\<close>

definition querySelector :: "string \<Rightarrow> page \<Rightarrow> element option" where
  "querySelector c p = find (has_class c) (doc p)"

text \<open>
  \<^verbatim>\<open>e.innerHTML = s\<close>, for the element of key \<open>k\<close>: the markup is stored on the element;
  see above for the children.
\<close>

definition set_innerHTML :: "nat \<Rightarrow> string \<Rightarrow> page \<Rightarrow> page" where
  "set_innerHTML k s p =
     p\<lparr>doc := map (\<lambda>e. if el_key e = k then e\<lparr>el_html := s\<rparr> else e) (doc p)\<rparr>"

text \<open>
  \<^verbatim>\<open>host.prepend(e)\<close>: \<open>e\<close> becomes the first child of the host, which in document order
  is the place right after the host. That \<open>e\<close> is now inside the host is not recorded.
\<close>

fun insert_after :: "nat \<Rightarrow> element \<Rightarrow> element list \<Rightarrow> element list" where
  "insert_after k e [] = []"
| "insert_after k e (x # xs) =
     (if el_key x = k then x # e # xs else x # insert_after k e xs)"

definition prepend :: "nat \<Rightarrow> element \<Rightarrow> page \<Rightarrow> page" where
  "prepend k e p = p\<lparr>doc := insert_after k e (doc p)\<rparr>"

text \<open>
  \<^verbatim>\<open>document.body.prepend(e)\<close> and \<^verbatim>\<open>document.body.appendChild(e)\<close>: the document list
  holds the elements inside the body, so these are its two ends.
\<close>

definition body_prepend :: "element \<Rightarrow> page \<Rightarrow> page" where
  "body_prepend e p = p\<lparr>doc := e # doc p\<rparr>"

definition body_appendChild :: "element \<Rightarrow> page \<Rightarrow> page" where
  "body_appendChild e p = p\<lparr>doc := doc p @ [e]\<rparr>"

text \<open>
  \<^verbatim>\<open>e.remove()\<close>, for the element of key \<open>k\<close>: the element leaves the document. The
  browser takes what is inside the element along; the list only drops the element.
\<close>

definition remove :: "nat \<Rightarrow> page \<Rightarrow> page" where
  "remove k p = p\<lparr>doc := filter (\<lambda>e. el_key e \<noteq> k) (doc p)\<rparr>"

definition count_id :: "string \<Rightarrow> page \<Rightarrow> nat" where
  "count_id i p = length (filter (\<lambda>e. el_id e = i) (doc p))"

section \<open>static/js/main.js: showError\<close>

text \<open>The markup of an error panel; both scripts write the same.\<close>

definition error_html :: "string \<Rightarrow> string" where
  \<open>error_html message =
     ''\<newline>      <i class="fas fa-exclamation-triangle me-2"></i>\<newline>      <strong>Error:</strong> ''
     @ message @
     ''\<newline>      <button type="button" class="btn-close" data-bs-dismiss="alert" aria-label="Close"></button>\<newline>    ''\<close>

definition error_alert_class :: string where
  "error_alert_class = ''alert alert-danger alert-dismissible fade show mt-3''"

text \<open>
  \<^verbatim>\<open>showError\<close> of main.js. The panel with id \<^verbatim>\<open>error-alert\<close> is looked up first and
  built only when there is none; a new panel goes to the front of the first
  \<^verbatim>\<open>.card-body\<close>, and on a page without one \<^verbatim>\<open>querySelector\<close> gives null and the
  call of \<^verbatim>\<open>prepend\<close> throws a TypeError (\<open>Inl\<close>), with the new panel never attached.
  The close button the script appends to a new panel is a child that the assignment to
  \<^verbatim>\<open>innerHTML\<close> replaces at once; it is part of the markup.
\<close>

definition showError_main :: "string \<Rightarrow> page \<Rightarrow> js_error + page" where
  "showError_main message p =
     (case getElementById ''error-alert'' p of
        Some errorAlert \<Rightarrow>
          Inr (set_innerHTML (el_key errorAlert) (error_html message) p)
      | None \<Rightarrow>
          (let (el, p1) = createElement p;
               errorAlert = el\<lparr>el_id := ''error-alert'', el_class := error_alert_class\<rparr>
           in case querySelector ''card-body'' p1 of
                None \<Rightarrow> Inl TypeError
              | Some host \<Rightarrow>
                  Inr (set_innerHTML (el_key errorAlert) (error_html message)
                         (prepend (el_key host) errorAlert p1))))"

text \<open>
  A sequence of calls, one per message. A call that throws leaves the document as it
  was and the next call starts from there.
\<close>

fun showErrors_main :: "string list \<Rightarrow> page \<Rightarrow> page" where
  "showErrors_main [] p = p"
| "showErrors_main (m # ms) p =
     (case showError_main m p of
        Inl _ \<Rightarrow> showErrors_main ms p
      | Inr p' \<Rightarrow> showErrors_main ms p')"

section \<open>Numbers\<close>

text \<open>
  The characters \<^verbatim>\<open>parseInt\<close> skips in front of a number, as UTF-8: tab, line feed,
  vertical tab, form feed, carriage return, space, no-break space, the Unicode space
  separators, the line and paragraph separators and the byte order mark.
\<close>

definition white_space :: "string list" where
  "white_space =
     [[CHR 0x09], [CHR 0x0A], [CHR 0x0B], [CHR 0x0C], [CHR 0x0D], [CHR 0x20],
      [CHR 0xC2, CHR 0xA0], [CHR 0xE1, CHR 0x9A, CHR 0x80],
      [CHR 0xE2, CHR 0x80, CHR 0x80], [CHR 0xE2, CHR 0x80, CHR 0x81],
      [CHR 0xE2, CHR 0x80, CHR 0x82], [CHR 0xE2, CHR 0x80, CHR 0x83],
      [CHR 0xE2, CHR 0x80, CHR 0x84], [CHR 0xE2, CHR 0x80, CHR 0x85],
      [CHR 0xE2, CHR 0x80, CHR 0x86], [CHR 0xE2, CHR 0x80, CHR 0x87],
      [CHR 0xE2, CHR 0x80, CHR 0x88], [CHR 0xE2, CHR 0x80, CHR 0x89],
      [CHR 0xE2, CHR 0x80, CHR 0x8A], [CHR 0xE2, CHR 0x80, CHR 0xA8],
      [CHR 0xE2, CHR 0x80, CHR 0xA9], [CHR 0xE2, CHR 0x80, CHR 0xAF],
      [CHR 0xE2, CHR 0x81, CHR 0x9F], [CHR 0xE3, CHR 0x80, CHR 0x80],
      [CHR 0xEF, CHR 0xBB, CHR 0xBF]]"

lemma white_space_nonempty: "w \<in> set white_space \<Longrightarrow> w \<noteq> []"
  by (auto simp: white_space_def)

function skip_ws :: "string \<Rightarrow> string" where
  "skip_ws s =
     (case find (\<lambda>w. prefix w s) white_space of
        None \<Rightarrow> s
      | Some w \<Rightarrow> skip_ws (drop (length w) s))"
  by pat_completeness auto
termination
proof (relation "measure length")
  show "wf (measure length)" by simp
next
  fix s w
  assume "find (\<lambda>w. prefix w s) white_space = Some w"
  then have "w \<in> set white_space" and "prefix w s"
    by (auto simp: find_Some_iff)
  then have "w \<noteq> []" and "length w \<le> length s"
    by (auto simp: white_space_nonempty prefix_length_le)
  then show "(drop (length w) s, s) \<in> measure length"
    by (cases w) auto
qed

declare skip_ws.simps [simp del]

definition dec_digits :: "(char \<times> nat) list" where
  "dec_digits = zip ''0123456789'' [0, 1, 2, 3, 4, 5, 6, 7, 8, 9]"

definition hex_digits :: "(char \<times> nat) list" where
  "hex_digits =
     dec_digits @ zip ''abcdefABCDEF'' [10, 11, 12, 13, 14, 15, 10, 11, 12, 13, 14, 15]"

text \<open>
  \<^verbatim>\<open>parseInt(string)\<close> with no radix: white space is skipped, a sign is read, a prefix
  \<^verbatim>\<open>0x\<close> or \<^verbatim>\<open>0X\<close> selects radix 16, and the longest run of digits is the number;
  with no digit the result is NaN (\<open>None\<close>). The result is kept as the exact integer:
  the script only compares it with 1 and 90, which the rounding of a long run of digits to
  a double does not change.
\<close>

definition parseInt :: "string \<Rightarrow> int option" where
  "parseInt string =
     (let s1 = skip_ws string;
          neg = prefix ''-'' s1;
          s2 = (if prefix ''+'' s1 \<or> prefix ''-'' s1 then tl s1 else s1);
          hex = (prefix ''0x'' s2 \<or> prefix ''0X'' s2);
          s3 = (if hex then drop 2 s2 else s2);
          table = (if hex then hex_digits else dec_digits);
          radix = (if hex then 16 else 10);
          z = takeWhile (\<lambda>c. map_of table c \<noteq> None) s3;
          n = foldl (\<lambda>a c. a * radix + the (map_of table c)) 0 z
      in if z = [] then None else Some (if neg then - int n else int n))"

definition digit_char :: "nat \<Rightarrow> char" where
  "digit_char d = ''0123456789'' ! d"

fun digits_of :: "nat \<Rightarrow> string" where
  "digits_of n =
     (if n < 10 then [digit_char n] else digits_of (n div 10) @ [digit_char (n mod 10)])"

declare digits_of.simps [simp del]

section \<open>formatFileSize (the same function in both scripts)\<close>

text \<open>
  \<^verbatim>\<open>Math.floor(Math.log(bytes) / Math.log(k))\<close>. The browser computes the two logarithms
  and their quotient in double precision; \<open>log_floor\<close> is the floor of the exact
  logarithm, the number \<open>i\<close> with \<open>k ^ i \<le> n < k ^ (i + 1)\<close>. For byte counts far beyond
  the four units (near \<open>2 ^ 50\<close>) the rounded quotient can reach the next integer early.
\<close>

function log_floor :: "nat \<Rightarrow> nat \<Rightarrow> nat" where
  "log_floor k n = (if k < 2 \<or> n < k then 0 else Suc (log_floor k (n div k)))"
  by pat_completeness auto
termination
  by (relation "measure snd") auto

declare log_floor.simps [simp del]

text \<open>
  \<^verbatim>\<open>(bytes / Math.pow(k, i)).toFixed(2)\<close>: the quotient is exact in double precision (a
  byte count below \<open>2 ^ 53\<close> divided by a power of two), and \<^verbatim>\<open>toFixed(2)\<close> picks the
  integer \<open>n\<close> with \<open>n / 100\<close> nearest to it, the larger one of two. \<open>toFixed2 num den\<close>
  is that \<open>n\<close> for the quotient \<open>num / den\<close>: the value in hundredths.
\<close>

definition toFixed2 :: "nat \<Rightarrow> nat \<Rightarrow> nat" where
  "toFixed2 num den = (200 * num + den) div (2 * den)"

text \<open>
  \<^verbatim>\<open>parseFloat\<close> reads the two-decimal text back, and the concatenation with a string
  prints the number in the shortest form: no fraction when it is an integer, no final
  zero. \<open>number_text h\<close> is that text for the number \<open>h / 100\<close>.
\<close>

definition number_text :: "nat \<Rightarrow> string" where
  "number_text h =
     digits_of (h div 100) @
     (if h mod 100 = 0 then []
      else ''.'' @ [digit_char (h mod 100 div 10)] @
           (if h mod 10 = 0 then [] else [digit_char (h mod 10)]))"

definition sizes :: "string list" where
  "sizes = [''Bytes'', ''KB'', ''MB'', ''GB'']"

text \<open>\<^verbatim>\<open>sizes[i]\<close>: an index past the array gives \<^verbatim>\<open>undefined\<close>, printed as that word.\<close>

definition sizes_at :: "nat \<Rightarrow> string" where
  "sizes_at i = (if i < length sizes then sizes ! i else ''undefined'')"

definition formatFileSize :: "nat \<Rightarrow> string" where
  "formatFileSize bytes =
     (if bytes = 0 then ''0 Bytes''
      else (let k = 1024;
                i = log_floor k bytes
            in number_text (toFixed2 bytes (k ^ i)) @ '' '' @ sizes_at i))"



section \<open>static/js/main.js: handlers\<close>

text \<open>
  What a handler leaves behind: the page, the exception that ended it (if one did) and
  whether \<^verbatim>\<open>preventDefault\<close> was called on the event.
\<close>

record outcome =
  page_after :: page
  thrown :: "js_error option"
  defaultPrevented :: bool

definition loading_html_main :: "string \<Rightarrow> string" where
  \<open>loading_html_main message =
     ''\<newline>      <div class="spinner-border text-light" role="status">\<newline>        <span class="visually-hidden">Loading...</span>\<newline>      </div>\<newline>      <div class="text-light mt-3">''
     @ message @ ''</div>\<newline>    ''\<close>

definition showLoading_main :: "string \<Rightarrow> page \<Rightarrow> page" where
  "showLoading_main message p =
     (let (el, p1) = createElement p;
          loadingEl = el\<lparr>el_class := ''loading-spinner'', el_html := loading_html_main message\<rparr>
      in body_appendChild loadingEl p1)"


text \<open>\<^verbatim>\<open>fileInput.value = ''\<close> empties the selection of a file input.\<close>

definition clear_input :: "page \<Rightarrow> page" where
  "clear_input p = p\<lparr>input_files := [], input_value := []\<rparr>"




text \<open>
  A submission that a handler rejects: \<^verbatim>\<open>e.preventDefault()\<close>, then \<^verbatim>\<open>showError\<close>,
  then \<^verbatim>\<open>return\<close>. The event stays cancelled when \<^verbatim>\<open>showError\<close> throws.
\<close>

definition reject :: "string \<Rightarrow> page \<Rightarrow> outcome" where
  "reject message p =
     (case showError_main message p of
        Inl err \<Rightarrow> \<lparr>page_after = p, thrown = Some err, defaultPrevented = True\<rparr>
      | Inr p' \<Rightarrow> \<lparr>page_after = p', thrown = None, defaultPrevented = True\<rparr>)"

text \<open>
  The submit handler of the forecast form. \<^verbatim>\<open>isNaN(days) || days < 1 || days > 90\<close>:
  NaN is \<open>None\<close>, for which the first test holds.
\<close>

definition forecastForm_submit :: "page \<Rightarrow> outcome" where
  "forecastForm_submit p =
     (if product_value p = [] then reject ''Please select a product.'' p
      else
        (let days = parseInt (days_value p)
         in if (case days of None \<Rightarrow> True | Some d \<Rightarrow> d < 1 \<or> d > 90)
            then reject ''Please enter a valid number of days (1-90).'' p
            else \<lparr>page_after = showLoading_main ''Generating forecast...'' p,
                    thrown = None, defaultPrevented = False\<rparr>))"

text \<open>The submit handler of the upload form: \<^verbatim>\<open>!fileInput.files[0]\<close> is no file.\<close>

definition uploadForm_submit :: "page \<Rightarrow> outcome" where
  "uploadForm_submit p =
     (if input_files p = [] then reject ''Please select a file to upload.'' p
      else \<lparr>page_after = showLoading_main ''Uploading and processing data...'' p,
              thrown = None, defaultPrevented = False\<rparr>)"

section \<open>The second script (unnamed/part_000)\<close>

definition error_container_class :: string where
  "error_container_class = ''alert alert-danger alert-dismissible fade show''"

text \<open>
  \<^verbatim>\<open>showError\<close> of the second script: a new panel on every call, put at the front of
  the first \<^verbatim>\<open>.container\<close> or else of the body, and one timer of 10000 milliseconds
  whose callback closes that panel. The handle \<^verbatim>\<open>setTimeout\<close> returns is dropped.
\<close>

definition showError_part :: "string \<Rightarrow> page \<Rightarrow> page" where
  "showError_part message p =
     (let (el, p1) = createElement p;
          errorContainer = el\<lparr>el_class := error_container_class,
                              el_html := error_html message\<rparr>;
          p2 = (case querySelector ''container'' p1 of
                  Some container \<Rightarrow> prepend (el_key container) errorContainer p1
                | None \<Rightarrow> body_prepend errorContainer p1)
      in p2\<lparr>timers := timers p2 @ [(10000, el_key errorContainer)]\<rparr>)"

definition loading_html_part :: "string \<Rightarrow> string" where
  \<open>loading_html_part message =
     ''\<newline>      <div class="spinner-container">\<newline>        <div class="spinner-border text-primary" role="status">\<newline>          <span class="visually-hidden">Loading...</span>\<newline>        </div>\<newline>        <p class="mt-2 text-white">''
     @ message @ ''</p>\<newline>      </div>\<newline>    ''\<close>

definition showLoading_part :: "string \<Rightarrow> page \<Rightarrow> page" where
  "showLoading_part message p =
     (let (el, p1) = createElement p;
          loadingDiv = el\<lparr>el_class := ''loading-spinner'', el_html := loading_html_part message\<rparr>
      in body_appendChild loadingDiv p1)"

definition file_info_html_part :: "string \<Rightarrow> string \<Rightarrow> string" where
  \<open>file_info_html_part fileName formattedSize =
     ''\<newline>          <strong>File:</strong> '' @ fileName @
     '' <br>\<newline>          <strong>Size:</strong> '' @ formattedSize @ ''\<newline>        ''\<close>

text \<open>The three statements both checks of the second script run on a rejected file.\<close>

definition reject_file :: "string \<Rightarrow> element option \<Rightarrow> page \<Rightarrow> page" where
  "reject_file message fileInfo p =
     (let p1 = clear_input (showError_part message p)
      in case fileInfo of
           Some e \<Rightarrow> set_innerHTML (el_key e) [] p1
         | None \<Rightarrow> p1)"

text \<open>
  The change handler of the second script. \<^verbatim>\<open>||\<close> replaces an undefined or empty name
  by \<^verbatim>\<open>'No file selected'\<close> and an undefined size by 0. The two checks run one after the
  other on the name and size read at the start.
\<close>

definition fileUpload_change :: "page \<Rightarrow> page" where
  "fileUpload_change p =
     (let fileName = (case input_files p of
                        [] \<Rightarrow> ''No file selected''
                      | f # _ \<Rightarrow> if file_name f = [] then ''No file selected'' else file_name f);
          fileSize = (case input_files p of [] \<Rightarrow> 0 | f # _ \<Rightarrow> file_size f);
          fileInfo = getElementById ''file-info'' p;
          p1 = (case fileInfo of
                  Some e \<Rightarrow> set_innerHTML (el_key e)
                              (file_info_html_part fileName (formatFileSize fileSize)) p
                | None \<Rightarrow> p);
          p2 = (if fileSize > 0 \<and> \<not> endsWith (toLowerCase fileName) ''.csv''
                then reject_file ''Please select a CSV file'' fileInfo p1 else p1)
      in if fileSize > 16 * 1024 * 1024
         then reject_file ''File size exceeds 16MB limit'' fileInfo p2 else p2)"

text \<open>
  A form as the second script reads it: its \<^verbatim>\<open>action\<close> and its
  \<^verbatim>\<open>data-loading-message\<close> attribute, if it has one.
\<close>

record form =
  form_action :: string
  loadingMessage :: "string option"

text \<open>
  The submit handler the second script puts on every form. It never calls
  \<^verbatim>\<open>preventDefault\<close>, so the browser submits the form from the page the handler leaves.
\<close>

definition form_submit :: "form \<Rightarrow> page \<Rightarrow> outcome" where
  "form_submit f p =
     (if includes_str (form_action f) ''clear_dataset''
      then \<lparr>page_after = p, thrown = None, defaultPrevented = False\<rparr>
      else
        (let loadingMessage =
               (case loadingMessage f of
                  None \<Rightarrow> ''Processing request...''
                | Some m \<Rightarrow> if m = [] then ''Processing request...'' else m)
         in \<lparr>page_after = showLoading_part loadingMessage p, thrown = None,
               defaultPrevented = False\<rparr>))"

text \<open>A file-selection event: the browser stores the chosen files in the input.\<close>

definition select_files :: "file_desc list \<Rightarrow> page \<Rightarrow> page" where
  \<open>select_files fs p =
     p\<lparr>input_files := fs,
       input_value := (case fs of [] \<Rightarrow> [] | f # _ \<Rightarrow> ''C:'' @ [CHR 0x5C] @ ''fakepath'' @ [CHR 0x5C] @ file_name f)\<rparr>\<close>

text \<open>
  The callback of the timer, \<^verbatim>\<open>new bootstrap.Alert(errorContainer).close()\<close>. Bootstrap
  is the library the page loads, not part of the sources; by its documentation \<^verbatim>\<open>close\<close>
  removes the alert from the document (after the fade, which is not timed here).
\<close>

definition alert_close :: "nat \<Rightarrow> page \<Rightarrow> page" where
  "alert_close k p = remove k p"

text \<open>
  \<open>d\<close> milliseconds pass with no other event. The timers due by then run their callback,
  the earliest first, and leave the list; the others have \<open>d\<close> milliseconds less to wait.
\<close>

definition elapse :: "nat \<Rightarrow> page \<Rightarrow> page" where
  "elapse d p =
     (let due = sort_key fst (filter (\<lambda>t. fst t \<le> d) (timers p));
          waiting = filter (\<lambda>t. d < fst t) (timers p);
          p' = fold (\<lambda>t q. alert_close (snd t) q) due p
      in p'\<lparr>timers := map (\<lambda>t. (fst t - d, snd t)) waiting\<rparr>)"

text \<open>
  What can happen on a page of the second script while it stays loaded: time passes, a
  file is selected, a form is submitted whose response leaves the page in place (a
  download), the user closes a panel with its close button (Bootstrap closes it as the
  timer would). A submission that loads another page ends this page and its timers with
  it. \<open>run\<close> takes the page through a sequence of such events and \<open>elapsed\<close> is the
  time the sequence takes.
\<close>

datatype event = Elapse nat | Select "file_desc list" | Submit form | Dismiss nat

fun step :: "event \<Rightarrow> page \<Rightarrow> page" where
  "step (Elapse d) p = elapse d p"
| "step (Select fs) p = fileUpload_change (select_files fs p)"
| "step (Submit f) p = page_after (form_submit f p)"
| "step (Dismiss k) p = alert_close k p"

fun run :: "event list \<Rightarrow> page \<Rightarrow> page" where
  "run [] p = p"
| "run (e # es) p = run es (step e p)"

fun elapsed :: "event list \<Rightarrow> nat" where
  "elapsed [] = 0"
| "elapsed (Elapse d # es) = d + elapsed es"
| "elapsed (_ # es) = elapsed es"

section \<open>Observations on a page\<close>

text \<open>
  Object identity: no two elements of the document share a key, and every key is below
  the next one \<open>createElement\<close> hands out.
\<close>

definition wf_page :: "page \<Rightarrow> bool" where
  "wf_page p =
     (distinct (map el_key (doc p)) \<and> list_all (\<lambda>e. el_key e < next_key p) (doc p))"

text \<open>
  main.js can show an error where the panel is already in the document or a
  \<^verbatim>\<open>.card-body\<close> is there to take a new one.
\<close>

definition error_host :: "page \<Rightarrow> bool" where
  "error_host p =
     (getElementById ''error-alert'' p \<noteq> None \<or> querySelector ''card-body'' p \<noteq> None)"




text \<open>Every timer waits for an element that exists, so one of a key handed out.\<close>

definition wf_timers :: "page \<Rightarrow> bool" where
  "wf_timers p = list_all (\<lambda>t. snd t < next_key p) (timers p)"

text \<open>The timers waiting to close the element of key \<open>k\<close>, and the elements of that key.\<close>

definition timers_of :: "nat \<Rightarrow> page \<Rightarrow> (nat \<times> nat) list" where
  "timers_of k p = filter (\<lambda>t. snd t = k) (timers p)"

definition elements_of :: "nat \<Rightarrow> page \<Rightarrow> element list" where
  "elements_of k p = filter (\<lambda>e. el_key e = k) (doc p)"

text \<open>The error panel of main.js is in the document and shows the message.\<close>

definition error_panel_main :: "string \<Rightarrow> page \<Rightarrow> bool" where
  "error_panel_main message p =
     (case getElementById ''error-alert'' p of
        Some e \<Rightarrow> el_html e = error_html message
      | None \<Rightarrow> False)"


text \<open>The loading overlays in the document.\<close>

definition overlays :: "page \<Rightarrow> element list" where
  "overlays p = filter (has_class ''loading-spinner'') (doc p)"


section \<open>Example pages\<close>

text \<open>An upload page with a container and a card body, and no panel yet.\<close>

definition upload_page :: page where
  "upload_page =
     \<lparr>doc = [\<lparr>el_key = 0, el_id = [], el_class = ''container mt-4'', el_html = []\<rparr>,
              \<lparr>el_key = 1, el_id = [], el_class = ''card-body'', el_html = []\<rparr>],
      next_key = 2, input_files = [], input_value = [], product_value = ''Widget'',
      days_value = ''30'', timers = []\<rparr>"

text \<open>The same page with an empty panel for the file information.\<close>

definition info_page :: page where
  "info_page =
     upload_page\<lparr>doc := doc upload_page @
       [\<lparr>el_key = 2, el_id = ''file-info'', el_class = ''mt-2'', el_html = []\<rparr>],
       next_key := 3\<rparr>"

section \<open>Lemmas\<close>

subsection \<open>The document\<close>

lemma endsWith_suffix: "endsWith s t \<longleftrightarrow> suffix t s"
proof
  assume "endsWith s t"
  then have "s = take (length s - length t) s @ t"
    by (metis append_take_drop_id endsWith_def)
  then show "suffix t s"
    by (metis suffixI)
next
  assume "suffix t s"
  then obtain u where "s = u @ t"
    by (auto simp: suffix_def)
  then show "endsWith s t"
    by (simp add: endsWith_def)
qed

lemma count_id_set_innerHTML [simp]: "count_id i (set_innerHTML k s p) = count_id i p"
proof -
  have "\<And>xs. length (filter (\<lambda>e. el_id e = i)
           (map (\<lambda>e. if el_key e = k then e\<lparr>el_html := s\<rparr> else e) xs))
         = length (filter (\<lambda>e. el_id e = i) xs)"
    subgoal for xs by (induction xs) auto
    done
  then show ?thesis
    by (simp add: count_id_def set_innerHTML_def)
qed

lemma length_insert_after: "length (filter P (insert_after k e xs)) \<le> Suc (length (filter P xs))"
  by (induction xs) auto

lemma count_id_prepend: "count_id i (prepend k e p) \<le> Suc (count_id i p)"
  by (simp add: count_id_def prepend_def length_insert_after)

lemma count_id_createElement [simp]: "count_id i (snd (createElement p)) = count_id i p"
  by (simp add: count_id_def createElement_def)

lemma getElementById_None_count: "getElementById i p = None \<Longrightarrow> count_id i p = 0"
  by (simp add: getElementById_def count_id_def find_None_iff)

lemma querySelector_createElement [simp]:
  "querySelector c (snd (createElement p)) = querySelector c p"
  by (simp add: querySelector_def createElement_def)

lemma showError_main_existing:
  "getElementById ''error-alert'' p = Some e \<Longrightarrow>
   showError_main m p = Inr (set_innerHTML (el_key e) (error_html m) p)"
  by (simp add: showError_main_def)

lemma showError_main_new:
  "getElementById ''error-alert'' p = None \<Longrightarrow> querySelector ''card-body'' p = Some h \<Longrightarrow>
   showError_main m p =
     Inr (set_innerHTML (next_key p) (error_html m)
           (prepend (el_key h)
              \<lparr>el_key = next_key p, el_id = ''error-alert'', el_class = error_alert_class,
                 el_html = []\<rparr>
              (p\<lparr>next_key := Suc (next_key p)\<rparr>)))"
  by (simp add: showError_main_def createElement_def querySelector_def)

lemma showError_main_throws:
  "getElementById ''error-alert'' p = None \<Longrightarrow> querySelector ''card-body'' p = None \<Longrightarrow>
   showError_main m p = Inl TypeError"
  by (simp add: showError_main_def createElement_def querySelector_def)

lemma showError_main_count:
  assumes "showError_main m p = Inr p'"
  shows "count_id ''error-alert'' p' \<le> max 1 (count_id ''error-alert'' p)"
proof (cases "getElementById ''error-alert'' p")
  case (Some e)
  with assms show ?thesis
    by (auto simp: showError_main_existing)
next
  case None
  then have zero: "count_id ''error-alert'' p = 0"
    by (rule getElementById_None_count)
  show ?thesis
  proof (cases "querySelector ''card-body'' p")
    case no_host: None
    with None assms show ?thesis
      by (simp add: showError_main_throws)
  next
    case (Some h)
    let ?q = "p\<lparr>next_key := Suc (next_key p)\<rparr>"
    have "count_id ''error-alert'' ?q = 0"
      using zero by (simp add: count_id_def)
    moreover have "\<And>e. count_id ''error-alert'' (prepend (el_key h) e ?q)
        \<le> Suc (count_id ''error-alert'' ?q)"
      by (rule count_id_prepend)
    ultimately have "\<And>e s k. count_id ''error-alert''
        (set_innerHTML k s (prepend (el_key h) e ?q)) \<le> 1"
      by simp
    moreover have "p' = set_innerHTML (next_key p) (error_html m)
        (prepend (el_key h)
           \<lparr>el_key = next_key p, el_id = ''error-alert'', el_class = error_alert_class,
              el_html = []\<rparr> ?q)"
      using assms None Some by (simp add: showError_main_new)
    ultimately have "count_id ''error-alert'' p' \<le> 1"
      by blast
    then show ?thesis
      by simp
  qed
qed

lemma showErrors_main_count:
  "count_id ''error-alert'' p \<le> 1 \<Longrightarrow> count_id ''error-alert'' (showErrors_main ms p) \<le> 1"
proof (induction ms arbitrary: p)
  case Nil
  then show ?case by simp
next
  case (Cons m ms)
  show ?case
  proof (cases "showError_main m p")
    case (Inl a)
    with Cons show ?thesis by simp
  next
    case (Inr p')
    then have "count_id ''error-alert'' p' \<le> 1"
      using showError_main_count [OF Inr] Cons.prems by simp
    with Cons.IH Inr show ?thesis by simp
  qed
qed

lemma find_map_same: "(\<And>x. P (f x) = P x) \<Longrightarrow> find P (map f xs) = map_option f (find P xs)"
  by (induction xs) auto



lemma find_insert_after_new:
  "find P xs = None \<Longrightarrow> P e \<Longrightarrow> h \<in> set xs \<Longrightarrow> find P (insert_after (el_key h) e xs) = Some e"
  by (induction xs) (auto split: if_splits)

lemma find_insert_after_other: "\<not> P e \<Longrightarrow> find P (insert_after k e xs) = find P xs"
  by (induction xs) auto

lemma find_Some_in_set: "find P xs = Some e \<Longrightarrow> e \<in> set xs \<and> P e"
  by (induction xs) (auto split: if_splits)

lemma set_insert_after: "set xs \<subseteq> set (insert_after k e xs)"
  by (induction xs) auto

lemma in_insert_after: "h \<in> set xs \<Longrightarrow> e \<in> set (insert_after (el_key h) e xs)"
  by (induction xs) auto

lemma set_insert_after_sub: "set (insert_after k e xs) \<subseteq> insert e (set xs)"
  by (induction xs) auto

lemma length_insert_after_found:
  "h \<in> set xs \<Longrightarrow> length (insert_after (el_key h) e xs) = Suc (length xs)"
  by (induction xs) auto

lemma distinct_insert_after:
  "distinct (map el_key xs) \<Longrightarrow> el_key e \<notin> el_key ` set xs \<Longrightarrow>
   distinct (map el_key (insert_after k e xs))"
proof (induction xs)
  case Nil
  then show ?case by simp
next
  case (Cons x xs)
  have "el_key ` set (insert_after k e xs) \<subseteq> insert (el_key e) (el_key ` set xs)"
    using set_insert_after_sub [of k e xs] by auto
  with Cons show ?case
    by auto
qed

lemma map_key_set_html [simp]:
  "map el_key (map (\<lambda>e. if el_key e = k then e\<lparr>el_html := s\<rparr> else e) xs) = map el_key xs"
  by (induction xs) auto

lemma has_class_html [simp]: "has_class c (e\<lparr>el_html := s\<rparr>) = has_class c e"
  by (simp add: has_class_def)

lemma getElementById_set_innerHTML:
  "getElementById i (set_innerHTML k s p) =
     map_option (\<lambda>e. if el_key e = k then e\<lparr>el_html := s\<rparr> else e) (getElementById i p)"
  unfolding getElementById_def set_innerHTML_def
  by (simp add: find_map_same)

lemma querySelector_set_innerHTML:
  "querySelector c (set_innerHTML k s p) =
     map_option (\<lambda>e. if el_key e = k then e\<lparr>el_html := s\<rparr> else e) (querySelector c p)"
  unfolding querySelector_def set_innerHTML_def
  by (simp add: find_map_same)

lemma wf_page_keys:
  "wf_page p \<longleftrightarrow>
     distinct (map el_key (doc p)) \<and> (\<forall>k \<in> set (map el_key (doc p)). k < next_key p)"
  by (auto simp: wf_page_def list_all_iff)

lemma keys_set_innerHTML: "map el_key (doc (set_innerHTML k s p)) = map el_key (doc p)"
  unfolding set_innerHTML_def by (induction "doc p") (simp_all add: comp_def cong: map_cong)

lemma wf_page_set_innerHTML [simp]: "wf_page (set_innerHTML k s p) = wf_page p"
  unfolding wf_page_keys keys_set_innerHTML by (simp add: set_innerHTML_def)

lemma frame_set_innerHTML [simp]:
  "input_files (set_innerHTML k s p) = input_files p"
  "input_value (set_innerHTML k s p) = input_value p"
  "timers (set_innerHTML k s p) = timers p"
  "next_key (set_innerHTML k s p) = next_key p"
  "length (doc (set_innerHTML k s p)) = length (doc p)"
  by (simp_all add: set_innerHTML_def)

lemma error_host_set_innerHTML [simp]: "error_host (set_innerHTML k s p) = error_host p"
  by (simp add: error_host_def getElementById_set_innerHTML querySelector_set_innerHTML)


lemma wf_key_less: "wf_page p \<Longrightarrow> x \<in> set (doc p) \<Longrightarrow> el_key x < next_key p"
  by (simp add: wf_page_def list_all_iff)

subsection \<open>showError of main.js\<close>

lemma showError_main_succeeds:
  "error_host p \<Longrightarrow> \<exists>p'. showError_main m p = Inr p'"
  by (cases "getElementById ''error-alert'' p"; cases "querySelector ''card-body'' p")
     (auto simp: error_host_def showError_main_existing showError_main_new)

lemma showError_main_frame:
  assumes "showError_main m p = Inr p'"
  shows "input_files p' = input_files p \<and> input_value p' = input_value p \<and> timers p' = timers p"
  using assms
  by (cases "getElementById ''error-alert'' p"; cases "querySelector ''card-body'' p")
     (auto simp: showError_main_existing showError_main_new showError_main_throws prepend_def)

lemma showError_main_panel:
  assumes "showError_main m p = Inr p'"
  shows "error_panel_main m p'"
proof (cases "getElementById ''error-alert'' p")
  case (Some e)
  with assms show ?thesis
    by (auto simp: showError_main_existing error_panel_main_def getElementById_set_innerHTML)
next
  case None
  show ?thesis
  proof (cases "querySelector ''card-body'' p")
    case no_host: None
    with None assms show ?thesis
      by (simp add: showError_main_throws)
  next
    case (Some h)
    then have h: "h \<in> set (doc p)"
      by (auto simp: querySelector_def dest: find_Some_in_set)
    let ?new = "\<lparr>el_key = next_key p, el_id = ''error-alert'', el_class = error_alert_class,
       el_html = []\<rparr>"
    have "find (\<lambda>e. el_id e = ''error-alert'') (insert_after (el_key h) ?new (doc p)) = Some ?new"
      using None h by (intro find_insert_after_new) (simp_all add: getElementById_def)
    then have "getElementById ''error-alert''
        (prepend (el_key h) ?new (p\<lparr>next_key := Suc (next_key p)\<rparr>)) = Some ?new"
      by (simp add: getElementById_def prepend_def)
    with assms None Some show ?thesis
      by (auto simp: showError_main_new error_panel_main_def getElementById_set_innerHTML)
  qed
qed


subsection \<open>The handlers of main.js\<close>











lemma has_class_error_alert [simp]:
  "\<not> has_class ''loading-spinner''
     \<lparr>el_key = k, el_id = i, el_class = error_alert_class, el_html = h\<rparr>"
  by (simp add: has_class_def error_alert_class_def ascii_space_def)

lemma length_filter_insert_after_other:
  "\<not> P e \<Longrightarrow> length (filter P (insert_after k e xs)) = length (filter P xs)"
  by (induction xs) auto

lemma length_overlays_set_innerHTML [simp]:
  "length (overlays (set_innerHTML k s p)) = length (overlays p)"
proof -
  have "\<And>xs. length (filter (has_class ''loading-spinner'')
           (map (\<lambda>e. if el_key e = k then e\<lparr>el_html := s\<rparr> else e) xs))
         = length (filter (has_class ''loading-spinner'') xs)"
    subgoal for xs by (induction xs) auto
    done
  then show ?thesis
    by (simp add: overlays_def set_innerHTML_def)
qed

lemma showError_main_overlays:
  assumes "showError_main m p = Inr p'"
  shows "length (overlays p') = length (overlays p)"
  using assms
  by (cases "getElementById ''error-alert'' p"; cases "querySelector ''card-body'' p")
     (auto simp: showError_main_existing showError_main_new showError_main_throws
        length_filter_insert_after_other overlays_def prepend_def
        simp del: length_overlays_set_innerHTML
        simp add: length_overlays_set_innerHTML [unfolded overlays_def])

lemma reject_prevented [simp]: "defaultPrevented (reject m p)"
  by (simp add: reject_def split: sum.splits)

lemma reject_overlays: "length (overlays (page_after (reject m p))) = length (overlays p)"
  by (auto simp: reject_def showError_main_overlays split: sum.splits)

lemma reject_shows:
  "error_host p \<Longrightarrow> thrown (reject m p) = None \<and> error_panel_main m (page_after (reject m p))"
  using showError_main_succeeds [of p m]
  by (auto simp: reject_def showError_main_panel)

lemma showLoading_main_doc:
  "showLoading_main m p =
     p\<lparr>next_key := Suc (next_key p),
       doc := doc p @ [\<lparr>el_key = next_key p, el_id = [], el_class = ''loading-spinner'',
                         el_html = loading_html_main m\<rparr>]\<rparr>"
  by (simp add: showLoading_main_def createElement_def body_appendChild_def)

lemma has_class_spinner [simp]:
  "has_class ''loading-spinner'' \<lparr>el_key = k, el_id = i, el_class = ''loading-spinner'', el_html = h\<rparr>"
  by (simp add: has_class_def ascii_space_def)

subsection \<open>The second script\<close>

lemma showError_part_container:
  "querySelector ''container'' p = Some c \<Longrightarrow>
   showError_part m p =
     p\<lparr>next_key := Suc (next_key p),
       doc := insert_after (el_key c)
                \<lparr>el_key = next_key p, el_id = [], el_class = error_container_class,
                   el_html = error_html m\<rparr> (doc p),
       timers := timers p @ [(10000, next_key p)]\<rparr>"
  by (simp add: showError_part_def createElement_def querySelector_def prepend_def)

lemma showError_part_body:
  "querySelector ''container'' p = None \<Longrightarrow>
   showError_part m p =
     p\<lparr>next_key := Suc (next_key p),
       doc := \<lparr>el_key = next_key p, el_id = [], el_class = error_container_class,
                 el_html = error_html m\<rparr> # doc p,
       timers := timers p @ [(10000, next_key p)]\<rparr>"
  by (simp add: showError_part_def createElement_def querySelector_def body_prepend_def)

lemma showError_part_frame [simp]:
  "input_files (showError_part m p) = input_files p"
  "input_value (showError_part m p) = input_value p"
  "next_key (showError_part m p) = Suc (next_key p)"
  "timers (showError_part m p) = timers p @ [(10000, next_key p)]"
  by (cases "querySelector ''container'' p";
      simp add: showError_part_container showError_part_body)+

lemma showError_part_doc:
  "\<lparr>el_key = next_key p, el_id = [], el_class = error_container_class,
      el_html = error_html m\<rparr> \<in> set (doc (showError_part m p))"
  "set (doc p) \<subseteq> set (doc (showError_part m p))"
  "set (doc (showError_part m p)) \<subseteq>
     insert \<lparr>el_key = next_key p, el_id = [], el_class = error_container_class,
              el_html = error_html m\<rparr> (set (doc p))"
  "length (doc (showError_part m p)) = Suc (length (doc p))"
proof -
  let ?e = "\<lparr>el_key = next_key p, el_id = [], el_class = error_container_class,
      el_html = error_html m\<rparr>"
  show "?e \<in> set (doc (showError_part m p))"
  proof (cases "querySelector ''container'' p")
    case None
    then show ?thesis by (simp add: showError_part_body)
  next
    case (Some c)
    then have "c \<in> set (doc p)"
      by (auto simp: querySelector_def dest: find_Some_in_set)
    then show ?thesis
      using Some by (simp add: showError_part_container in_insert_after)
  qed
  show "set (doc p) \<subseteq> set (doc (showError_part m p))"
    using set_insert_after
    by (cases "querySelector ''container'' p")
       (auto simp: showError_part_container showError_part_body)
  show "set (doc (showError_part m p)) \<subseteq> insert ?e (set (doc p))"
    using set_insert_after_sub
    by (cases "querySelector ''container'' p")
       (auto simp: showError_part_container showError_part_body)
  show "length (doc (showError_part m p)) = Suc (length (doc p))"
  proof (cases "querySelector ''container'' p")
    case None
    then show ?thesis by (simp add: showError_part_body)
  next
    case (Some c)
    then have "c \<in> set (doc p)"
      by (auto simp: querySelector_def dest: find_Some_in_set)
    then show ?thesis
      using Some by (simp add: showError_part_container length_insert_after_found)
  qed
qed

lemma getElementById_showError_part:
  "i \<noteq> [] \<Longrightarrow> getElementById i (showError_part m p) = getElementById i p"
  by (cases "querySelector ''container'' p")
     (auto simp: showError_part_container showError_part_body getElementById_def
        find_insert_after_other)


lemma reject_file_frame [simp]:
  "input_files (reject_file m fi p) = []"
  "input_value (reject_file m fi p) = []"
  "next_key (reject_file m fi p) = Suc (next_key p)"
  "timers (reject_file m fi p) = timers p @ [(10000, next_key p)]"
  "length (doc (reject_file m fi p)) = Suc (length (doc p))"
  by (cases fi; simp add: reject_file_def clear_input_def showError_part_doc)+



lemma showLoading_part_doc:
  "showLoading_part m p =
     p\<lparr>next_key := Suc (next_key p),
       doc := doc p @ [\<lparr>el_key = next_key p, el_id = [], el_class = ''loading-spinner'',
                         el_html = loading_html_part m\<rparr>]\<rparr>"
  by (simp add: showLoading_part_def createElement_def body_appendChild_def)

lemma includes_str_sublist: "includes_str s t \<longleftrightarrow> sublist t s"
  by (induction s) (auto simp: sublist_Cons_right)

subsection \<open>The change handlers on a selection\<close>

lemma select_files_frame [simp]:
  "doc (select_files fs p) = doc p"
  "next_key (select_files fs p) = next_key p"
  "timers (select_files fs p) = timers p"
  "input_files (select_files fs p) = fs"
  "wf_page (select_files fs p) = wf_page p"
  "error_host (select_files fs p) = error_host p"
  "getElementById i (select_files fs p) = getElementById i p"
  by (simp_all add: select_files_def wf_page_def error_host_def getElementById_def
      querySelector_def)





subsection \<open>Accepted files\<close>

lemma info_page_facts:
  "wf_page info_page" "next_key info_page = 3" "timers info_page = []"
  "getElementById ''file-info'' info_page
     = Some \<lparr>el_key = 2, el_id = ''file-info'', el_class = ''mt-2'', el_html = []\<rparr>"
  by (simp_all add: info_page_def upload_page_def wf_page_def getElementById_def)

lemma fileUpload_change_accepted:
  assumes files: "input_files p = f # fs"
    and csv: "endsWith (toLowerCase (file_name f)) ''.csv''"
    and small: "file_size f \<le> 16777216"
  shows "fileUpload_change p =
     (case getElementById ''file-info'' p of
        Some e \<Rightarrow> set_innerHTML (el_key e)
                    (file_info_html_part (file_name f) (formatFileSize (file_size f))) p
      | None \<Rightarrow> p)"
proof -
  have "file_name f \<noteq> []"
    using csv by (auto simp: endsWith_def toLowerCase_def)
  with files csv small show ?thesis
    unfolding fileUpload_change_def Let_def
    by (simp cong: option.case_cong)
qed

subsection \<open>Numbers and their text\<close>


















subsection \<open>The example pages\<close>

lemma upload_page_facts:
  "wf_page upload_page" "error_host upload_page"
  "getElementById ''file-info'' upload_page = None"
  "getElementById ''error-alert'' upload_page = None"
  "next_key upload_page = 2" "timers upload_page = []"
  by (simp_all add: upload_page_def wf_page_def error_host_def getElementById_def
      querySelector_def has_class_def ascii_space_def)

lemma parseInt_examples:
  "parseInt ''0'' = Some 0" "parseInt ''91'' = Some 91" "parseInt ''abc'' = None"
  "parseInt ''1'' = Some 1" "parseInt ''90'' = Some 90" "parseInt ''30'' = Some 30"
  by code_simp+

subsection \<open>Timers\<close>

text \<open>
  \<open>extends q q'\<close>: from \<open>q\<close> to \<open>q'\<close> no timer was taken away or changed, and every new
  timer and element has a new key.
\<close>

definition extends :: "page \<Rightarrow> page \<Rightarrow> bool" where
  "extends q q' =
     (next_key q \<le> next_key q' \<and>
      (\<exists>new. timers q' = timers q @ new \<and> (\<forall>t \<in> set new. next_key q \<le> snd t)) \<and>
      (\<forall>e \<in> set (doc q'). el_key e \<in> el_key ` set (doc q) \<or> next_key q \<le> el_key e))"

lemma extends_refl [simp]: "extends q q"
  by (auto simp: extends_def)

lemma extends_trans: "extends q q' \<Longrightarrow> extends q' q'' \<Longrightarrow> extends q q''"
proof -
  assume a: "extends q q'" and b: "extends q' q''"
  from a obtain n1 where n1: "timers q' = timers q @ n1" "\<forall>t \<in> set n1. next_key q \<le> snd t"
    by (auto simp: extends_def)
  from b obtain n2 where n2: "timers q'' = timers q' @ n2" "\<forall>t \<in> set n2. next_key q' \<le> snd t"
    by (auto simp: extends_def)
  have le: "next_key q \<le> next_key q'" "next_key q' \<le> next_key q''"
    using a b by (auto simp: extends_def)
  have "timers q'' = timers q @ (n1 @ n2)"
    by (simp add: n1 n2)
  moreover have "\<forall>t \<in> set (n1 @ n2). next_key q \<le> snd t"
    using n1(2) n2(2) le by fastforce
  moreover have "el_key e \<in> el_key ` set (doc q) \<or> next_key q \<le> el_key e"
    if "e \<in> set (doc q'')" for e
  proof -
    from b that have "el_key e \<in> el_key ` set (doc q') \<or> next_key q' \<le> el_key e"
      by (auto simp: extends_def)
    then show ?thesis
    proof
      assume "el_key e \<in> el_key ` set (doc q')"
      then obtain x where x: "x \<in> set (doc q')" "el_key x = el_key e"
        by auto
      from a have "\<forall>y \<in> set (doc q'). el_key y \<in> el_key ` set (doc q) \<or> next_key q \<le> el_key y"
        by (simp add: extends_def)
      with x(1) have "el_key x \<in> el_key ` set (doc q) \<or> next_key q \<le> el_key x"
        by blast
      then show ?thesis
        by (simp add: x(2))
    next
      assume "next_key q' \<le> el_key e"
      with le show ?thesis by simp
    qed
  qed
  ultimately show ?thesis
    unfolding extends_def using le by (meson le_trans)
qed

lemma extends_set_innerHTML: "extends q (set_innerHTML k s q)"
proof -
  have "el_key ` set (doc (set_innerHTML k s q)) = el_key ` set (doc q)"
    using keys_set_innerHTML [of k s q] by (metis set_map)
  then show ?thesis
    by (auto simp: extends_def)
qed

lemma extends_clear_input: "extends q (clear_input q)"
  by (auto simp: extends_def clear_input_def)

lemma extends_select_files: "extends q (select_files fs q)"
  by (auto simp: extends_def)

lemma extends_showError_part: "extends q (showError_part m q)"
  using showError_part_doc(3) [of m q]
  by (auto simp: extends_def)

lemma extends_showLoading_part: "extends q (showLoading_part m q)"
  by (auto simp: extends_def showLoading_part_doc)

lemma extends_reject_file: "extends q (reject_file m fi q)"
proof -
  have "extends q (clear_input (showError_part m q))"
    using extends_showError_part extends_clear_input by (rule extends_trans)
  then show ?thesis
    by (cases fi) (auto simp: reject_file_def intro: extends_trans extends_set_innerHTML)
qed

lemma extends_fileUpload_change: "extends q (fileUpload_change q)"
proof -
  have 1: "extends q (case fi of Some e \<Rightarrow> set_innerHTML (el_key e) s q | None \<Rightarrow> q)" for fi s
    by (cases fi) (simp_all add: extends_set_innerHTML)
  have 2: "extends a (if c then reject_file m fi a else a)" for a c m fi
    by (simp add: extends_reject_file)
  show ?thesis
    unfolding fileUpload_change_def Let_def
    by (rule extends_trans [OF extends_trans [OF 1 2] 2])
qed

lemma extends_form_submit: "extends q (page_after (form_submit f q))"
  by (simp add: form_submit_def extends_showLoading_part)

lemma extends_alert_close: "extends q (alert_close k q)"
  by (auto simp: extends_def alert_close_def remove_def)

lemma extends_step:
  assumes "\<And>d. e \<noteq> Elapse d"
  shows "extends q (step e q)"
proof (cases e)
  case (Elapse d)
  with assms show ?thesis
    by blast
next
  case (Select fs)
  show ?thesis
    unfolding Select step.simps
    using extends_select_files extends_fileUpload_change by (rule extends_trans)
next
  case (Submit f)
  then show ?thesis
    by (simp add: extends_form_submit)
next
  case (Dismiss k)
  then show ?thesis
    by (simp add: extends_alert_close)
qed

lemma extends_timers_of:
  assumes "extends q q'" and "k < next_key q"
  shows "timers_of k q' = timers_of k q"
proof -
  from assms(1) obtain new where new: "timers q' = timers q @ new"
    "\<forall>t \<in> set new. next_key q \<le> snd t"
    by (auto simp: extends_def)
  have "filter (\<lambda>t. snd t = k) new = []"
    using new(2) assms(2) by (auto simp: filter_empty_conv)
  then show ?thesis
    by (simp add: timers_of_def new(1))
qed

lemma extends_elements_of:
  assumes "extends q q'" and "k < next_key q" and "elements_of k q = []"
  shows "elements_of k q' = []"
proof -
  have "el_key e \<noteq> k" if "e \<in> set (doc q')" for e
  proof -
    from assms(1) that have "el_key e \<in> el_key ` set (doc q) \<or> next_key q \<le> el_key e"
      by (auto simp: extends_def)
    then show ?thesis
      using assms(2,3) by (auto simp: elements_of_def filter_empty_conv)
  qed
  then show ?thesis
    by (auto simp: elements_of_def filter_empty_conv)
qed

lemma extends_next_key: "extends q q' \<Longrightarrow> k < next_key q \<Longrightarrow> k < next_key q'"
  by (auto simp: extends_def)

lemma doc_fold_alert_close:
  "doc (fold (\<lambda>t q. alert_close (snd t) q) ts p) = filter (\<lambda>e. el_key e \<notin> snd ` set ts) (doc p)"
proof (induction ts arbitrary: p)
  case Nil
  then show ?case by simp
next
  case (Cons t ts)
  have "filter (\<lambda>e. el_key e \<notin> snd ` set ts) (filter (\<lambda>e. el_key e \<noteq> snd t) (doc p))
      = filter (\<lambda>e. el_key e \<notin> snd ` set (t # ts)) (doc p)"
    by (auto intro: filter_cong)
  with Cons show ?case
    by (simp add: alert_close_def remove_def)
qed

lemma next_key_fold_alert_close [simp]:
  "next_key (fold (\<lambda>t q. alert_close (snd t) q) ts p) = next_key p"
  by (induction ts arbitrary: p) (simp_all add: alert_close_def remove_def)

lemma elapse_frame [simp]:
  "next_key (elapse d p) = next_key p"
  "timers (elapse d p) = map (\<lambda>t. (fst t - d, snd t)) (filter (\<lambda>t. d < fst t) (timers p))"
  "doc (elapse d p) = filter (\<lambda>e. el_key e \<notin> snd ` set (filter (\<lambda>t. fst t \<le> d) (timers p))) (doc p)"
  by (simp_all add: elapse_def Let_def doc_fold_alert_close)

lemma timers_of_elapse:
  "timers_of k (elapse d p) = map (\<lambda>t. (fst t - d, snd t)) (filter (\<lambda>t. d < fst t) (timers_of k p))"
proof -
  have "filter (\<lambda>t. snd t = k) (map (\<lambda>t. (fst t - d, snd t)) xs)
      = map (\<lambda>t. (fst t - d, snd t)) (filter (\<lambda>t. snd t = k) xs)" for xs :: "(nat \<times> nat) list"
    by (induction xs) auto
  moreover have "filter (\<lambda>t. snd t = k) (filter (\<lambda>t. d < fst t) xs)
      = filter (\<lambda>t. d < fst t) (filter (\<lambda>t. snd t = k) xs)" for xs :: "(nat \<times> nat) list"
    by (induction xs) auto
  ultimately show ?thesis
    by (simp add: timers_of_def)
qed

lemma elements_of_elapse_due:
  assumes "timers_of k p = [(r, k)]" and "r \<le> d"
  shows "elements_of k (elapse d p) = []"
proof -
  have "(r, k) \<in> set (timers_of k p)"
    using assms(1) by simp
  then have "(r, k) \<in> set (filter (\<lambda>t. fst t \<le> d) (timers p))"
    using assms(2) by (simp add: timers_of_def)
  then have "k \<in> snd ` set (filter (\<lambda>t. fst t \<le> d) (timers p))"
    by force
  then show ?thesis
    by (auto simp: elements_of_def filter_empty_conv)
qed

lemma elements_of_elapse_gone:
  "elements_of k p = [] \<Longrightarrow> elements_of k (elapse d p) = []"
  by (auto simp: elements_of_def filter_empty_conv)

lemma step_gone:
  assumes "k < next_key q" and "timers_of k q = []" and "elements_of k q = []"
  shows "k < next_key (step e q) \<and> timers_of k (step e q) = [] \<and> elements_of k (step e q) = []"
proof (cases "\<exists>d. e = Elapse d")
  case True
  with assms show ?thesis
    by (auto simp: timers_of_elapse elements_of_elapse_gone)
next
  case False
  then have ext: "extends q (step e q)"
    by (intro extends_step) auto
  show ?thesis
    using extends_next_key [OF ext assms(1)] extends_timers_of [OF ext assms(1)]
      extends_elements_of [OF ext assms(1,3)] assms(2) by simp
qed

lemma run_gone:
  "k < next_key q \<Longrightarrow> timers_of k q = [] \<Longrightarrow> elements_of k q = [] \<Longrightarrow>
   timers_of k (run evs q) = [] \<and> elements_of k (run evs q) = []"
proof (induction evs arbitrary: q)
  case Nil
  then show ?case by simp
next
  case (Cons e evs)
  from step_gone [OF Cons.prems, of e] Cons.IH [of "step e q"] show ?case
    by simp
qed

lemma run_pending:
  "k < next_key q \<Longrightarrow> timers_of k q = [(r, k)] \<Longrightarrow> 0 < r \<Longrightarrow>
   (elapsed evs < r \<longrightarrow> timers_of k (run evs q) = [(r - elapsed evs, k)]) \<and>
   (r \<le> elapsed evs \<longrightarrow> timers_of k (run evs q) = [] \<and> elements_of k (run evs q) = [])"
proof (induction evs arbitrary: q r)
  case Nil
  then show ?case by simp
next
  case (Cons e evs)
  show ?case
  proof (cases "\<exists>d. e = Elapse d")
    case True
    then obtain d where Elapse: "e = Elapse d"
      by blast
    show ?thesis
    proof (cases "d < r")
      case True
      then have "timers_of k (elapse d q) = [(r - d, k)]"
        using Cons.prems(2) by (simp add: timers_of_elapse)
      from Cons.IH [OF _ this] Cons.prems(1) True show ?thesis
        by (auto simp: Elapse)
    next
      case False
      then have "timers_of k (elapse d q) = []" "elements_of k (elapse d q) = []"
        using Cons.prems(2) elements_of_elapse_due [of k q r d]
        by (simp_all add: timers_of_elapse)
      from run_gone [OF _ this, of evs] Cons.prems(1) False show ?thesis
        by (simp add: Elapse)
    qed
  next
    case False
    then have ext: "extends q (step e q)"
      by (intro extends_step) auto
    from False have same: "elapsed (e # evs) = elapsed evs"
      by (cases e) simp_all
    from Cons.IH [of "step e q" r] extends_next_key [OF ext Cons.prems(1)]
      extends_timers_of [OF ext Cons.prems(1)] Cons.prems(2,3)
    show ?thesis
      by (simp add: same)
  qed
qed

subsection \<open>The conditions on the page\<close>




section \<open>Claims\<close>







text \<open>
  C3. The submit handler of the forecast form cancels the submission exactly when the
  product value is empty or the days value, read by \<^verbatim>\<open>parseInt\<close>, is NaN, below 1 or
  above 90. With a product chosen, the days values 0, 91 and abc are cancelled and 1 and
  90 are not. A cancelled submission shows the error panel, on a page that has the panel
  or a \<^verbatim>\<open>.card-body\<close> for it.
\<close>

theorem forecast_submit_guard:
  "(defaultPrevented (forecastForm_submit p) \<longleftrightarrow>
      product_value p = [] \<or>
      (case parseInt (days_value p) of None \<Rightarrow> True | Some d \<Rightarrow> d < 1 \<or> 90 < d)) \<and>
   (product_value p \<noteq> [] \<longrightarrow>
      defaultPrevented (forecastForm_submit (p\<lparr>days_value := ''0''\<rparr>)) \<and>
      defaultPrevented (forecastForm_submit (p\<lparr>days_value := ''91''\<rparr>)) \<and>
      defaultPrevented (forecastForm_submit (p\<lparr>days_value := ''abc''\<rparr>)) \<and>
      \<not> defaultPrevented (forecastForm_submit (p\<lparr>days_value := ''1''\<rparr>)) \<and>
      \<not> defaultPrevented (forecastForm_submit (p\<lparr>days_value := ''90''\<rparr>))) \<and>
   (defaultPrevented (forecastForm_submit p) \<and> error_host p \<longrightarrow>
      thrown (forecastForm_submit p) = None \<and>
      error_panel_main
        (if product_value p = [] then ''Please select a product.''
         else ''Please enter a valid number of days (1-90).'')
        (page_after (forecastForm_submit p)))"
proof (intro conjI)
  show "defaultPrevented (forecastForm_submit p) \<longleftrightarrow>
      product_value p = [] \<or>
      (case parseInt (days_value p) of None \<Rightarrow> True | Some d \<Rightarrow> d < 1 \<or> 90 < d)"
    by (auto simp: forecastForm_submit_def Let_def split: option.splits)
  show "product_value p \<noteq> [] \<longrightarrow>
      defaultPrevented (forecastForm_submit (p\<lparr>days_value := ''0''\<rparr>)) \<and>
      defaultPrevented (forecastForm_submit (p\<lparr>days_value := ''91''\<rparr>)) \<and>
      defaultPrevented (forecastForm_submit (p\<lparr>days_value := ''abc''\<rparr>)) \<and>
      \<not> defaultPrevented (forecastForm_submit (p\<lparr>days_value := ''1''\<rparr>)) \<and>
      \<not> defaultPrevented (forecastForm_submit (p\<lparr>days_value := ''90''\<rparr>))"
    by (simp add: forecastForm_submit_def parseInt_examples)
  show "defaultPrevented (forecastForm_submit p) \<and> error_host p \<longrightarrow>
      thrown (forecastForm_submit p) = None \<and>
      error_panel_main
        (if product_value p = [] then ''Please select a product.''
         else ''Please enter a valid number of days (1-90).'')
        (page_after (forecastForm_submit p))"
    using reject_shows [of p]
    by (simp add: forecastForm_submit_def Let_def)
qed

text \<open>
  The upload page (product Widget, 30 days) passes; 0 days and an empty product do not.
\<close>

theorem forecast_submit_guard_witness:
  "product_value upload_page \<noteq> [] \<and> error_host upload_page \<and>
   \<not> defaultPrevented (forecastForm_submit upload_page) \<and>
   defaultPrevented (forecastForm_submit (upload_page\<lparr>days_value := ''0''\<rparr>)) \<and>
   \<not> defaultPrevented (forecastForm_submit (upload_page\<lparr>days_value := ''90''\<rparr>)) \<and>
   defaultPrevented (forecastForm_submit (upload_page\<lparr>product_value := []\<rparr>)) \<and>
   thrown (forecastForm_submit (upload_page\<lparr>product_value := []\<rparr>)) = None \<and>
   error_panel_main ''Please select a product.''
     (page_after (forecastForm_submit (upload_page\<lparr>product_value := []\<rparr>)))"
proof -
  have product: "product_value upload_page \<noteq> []"
    by (simp add: upload_page_def)
  have host: "error_host (upload_page\<lparr>product_value := []\<rparr>)"
    using upload_page_facts(2) by (simp add: error_host_def getElementById_def querySelector_def)
  have days: "parseInt (days_value upload_page) = Some 30"
    by (simp add: upload_page_def parseInt_examples)
  show ?thesis
    using forecast_submit_guard [of upload_page]
      forecast_submit_guard [of "upload_page\<lparr>product_value := []\<rparr>"]
      product host days upload_page_facts(2)
    by simp
qed

text \<open>
  C4. A form whose action does not include \<^verbatim>\<open>clear_dataset\<close>: the submit handler of the
  second script appends one loading overlay as the last element of the body and does not
  cancel the event, so the browser submits from the page with the overlay. For the
  dataset-clear form the handler leaves the page as it is. In main.js the upload form with
  a file selected, and the forecast form with a product and a number of days from 1 to 90,
  are let through with their overlay appended as the last element of the body; a
  submission main.js cancels gets none.
\<close>

theorem submit_shows_loading_overlay:
  "(\<not> sublist ''clear_dataset'' (form_action f) \<longrightarrow>
      doc (page_after (form_submit f p)) =
        doc p @ [\<lparr>el_key = next_key p, el_id = [], el_class = ''loading-spinner'',
                   el_html = loading_html_part
                     (if loadingMessage f \<in> {None, Some []} then ''Processing request...''
                      else the (loadingMessage f))\<rparr>] \<and>
      length (overlays (page_after (form_submit f p))) = Suc (length (overlays p)) \<and>
      \<not> defaultPrevented (form_submit f p) \<and> thrown (form_submit f p) = None) \<and>
   (sublist ''clear_dataset'' (form_action f) \<longrightarrow>
      page_after (form_submit f p) = p \<and> \<not> defaultPrevented (form_submit f p)) \<and>
   (input_files p \<noteq> [] \<longrightarrow>
      \<not> defaultPrevented (uploadForm_submit p) \<and> thrown (uploadForm_submit p) = None \<and>
      doc (page_after (uploadForm_submit p)) =
        doc p @ [\<lparr>el_key = next_key p, el_id = [], el_class = ''loading-spinner'',
                   el_html = loading_html_main ''Uploading and processing data...''\<rparr>]) \<and>
   (product_value p \<noteq> [] \<and>
    (case parseInt (days_value p) of None \<Rightarrow> False | Some d \<Rightarrow> 1 \<le> d \<and> d \<le> 90) \<longrightarrow>
      \<not> defaultPrevented (forecastForm_submit p) \<and> thrown (forecastForm_submit p) = None \<and>
      doc (page_after (forecastForm_submit p)) =
        doc p @ [\<lparr>el_key = next_key p, el_id = [], el_class = ''loading-spinner'',
                   el_html = loading_html_main ''Generating forecast...''\<rparr>]) \<and>
   (\<not> defaultPrevented (uploadForm_submit p) \<longrightarrow>
      length (overlays (page_after (uploadForm_submit p))) = Suc (length (overlays p))) \<and>
   (\<not> defaultPrevented (forecastForm_submit p) \<longrightarrow>
      length (overlays (page_after (forecastForm_submit p))) = Suc (length (overlays p))) \<and>
   (defaultPrevented (uploadForm_submit p) \<longrightarrow>
      length (overlays (page_after (uploadForm_submit p))) = length (overlays p)) \<and>
   (defaultPrevented (forecastForm_submit p) \<longrightarrow>
      length (overlays (page_after (forecastForm_submit p))) = length (overlays p))"
proof (intro conjI impI)
  assume "\<not> sublist ''clear_dataset'' (form_action f)"
  then have other: "\<not> includes_str (form_action f) ''clear_dataset''"
    by (simp add: includes_str_sublist)
  then show "doc (page_after (form_submit f p)) =
      doc p @ [\<lparr>el_key = next_key p, el_id = [], el_class = ''loading-spinner'',
                 el_html = loading_html_part
                   (if loadingMessage f \<in> {None, Some []} then ''Processing request...''
                    else the (loadingMessage f))\<rparr>]"
    by (cases "loadingMessage f") (simp_all add: form_submit_def showLoading_part_doc)
  from other show "length (overlays (page_after (form_submit f p))) = Suc (length (overlays p))"
    by (simp add: form_submit_def showLoading_part_doc overlays_def)
  from other show "\<not> defaultPrevented (form_submit f p)" "thrown (form_submit f p) = None"
    by (simp_all add: form_submit_def)
next
  assume "sublist ''clear_dataset'' (form_action f)"
  then have "includes_str (form_action f) ''clear_dataset''"
    by (simp add: includes_str_sublist)
  then show "page_after (form_submit f p) = p" "\<not> defaultPrevented (form_submit f p)"
    by (simp_all add: form_submit_def)
next
  assume "input_files p \<noteq> []"
  then show "\<not> defaultPrevented (uploadForm_submit p)" "thrown (uploadForm_submit p) = None"
    "doc (page_after (uploadForm_submit p)) =
      doc p @ [\<lparr>el_key = next_key p, el_id = [], el_class = ''loading-spinner'',
                 el_html = loading_html_main ''Uploading and processing data...''\<rparr>]"
    by (simp_all add: uploadForm_submit_def showLoading_main_doc)
next
  assume "product_value p \<noteq> [] \<and>
    (case parseInt (days_value p) of None \<Rightarrow> False | Some d \<Rightarrow> 1 \<le> d \<and> d \<le> 90)"
  then show "\<not> defaultPrevented (forecastForm_submit p)" "thrown (forecastForm_submit p) = None"
    "doc (page_after (forecastForm_submit p)) =
      doc p @ [\<lparr>el_key = next_key p, el_id = [], el_class = ''loading-spinner'',
                 el_html = loading_html_main ''Generating forecast...''\<rparr>]"
    by (auto simp: forecastForm_submit_def Let_def showLoading_main_doc split: option.splits)
next
  assume "\<not> defaultPrevented (uploadForm_submit p)"
  then show "length (overlays (page_after (uploadForm_submit p))) = Suc (length (overlays p))"
    by (simp add: uploadForm_submit_def showLoading_main_doc overlays_def split: if_splits)
next
  assume "\<not> defaultPrevented (forecastForm_submit p)"
  then show "length (overlays (page_after (forecastForm_submit p))) = Suc (length (overlays p))"
    by (auto simp: forecastForm_submit_def Let_def showLoading_main_doc overlays_def
        split: if_splits)
next
  assume "defaultPrevented (uploadForm_submit p)"
  then show "length (overlays (page_after (uploadForm_submit p))) = length (overlays p)"
    by (simp add: uploadForm_submit_def reject_overlays split: if_splits)
next
  assume "defaultPrevented (forecastForm_submit p)"
  then show "length (overlays (page_after (forecastForm_submit p))) = length (overlays p)"
    by (auto simp: forecastForm_submit_def Let_def reject_overlays split: if_splits)
qed

text \<open>
  On the upload page, which has no overlay: an upload form and the dataset-clear form
  under the second script; under main.js the upload form with \<^verbatim>\<open>sales.csv\<close> selected and
  the forecast form with product Widget and 30 days.
\<close>

theorem submit_shows_loading_overlay_witness:
  "\<not> sublist ''clear_dataset'' ''http://localhost:5000/upload'' \<and>
   sublist ''clear_dataset'' ''http://localhost:5000/clear_dataset'' \<and>
   overlays upload_page = [] \<and>
   length (overlays (page_after (form_submit
     \<lparr>form_action = ''http://localhost:5000/upload'', loadingMessage = None\<rparr> upload_page))) = 1 \<and>
   \<not> defaultPrevented (form_submit
     \<lparr>form_action = ''http://localhost:5000/upload'', loadingMessage = None\<rparr> upload_page) \<and>
   page_after (form_submit
     \<lparr>form_action = ''http://localhost:5000/clear_dataset'', loadingMessage = None\<rparr> upload_page)
     = upload_page \<and>
   \<not> defaultPrevented (uploadForm_submit
     (select_files [\<lparr>file_name = ''sales.csv'', file_size = 2048\<rparr>] upload_page)) \<and>
   doc (page_after (uploadForm_submit
     (select_files [\<lparr>file_name = ''sales.csv'', file_size = 2048\<rparr>] upload_page))) =
     doc upload_page @ [\<lparr>el_key = 2, el_id = [], el_class = ''loading-spinner'',
        el_html = loading_html_main ''Uploading and processing data...''\<rparr>] \<and>
   \<not> defaultPrevented (forecastForm_submit upload_page) \<and>
   doc (page_after (forecastForm_submit upload_page)) =
     doc upload_page @ [\<lparr>el_key = 2, el_id = [], el_class = ''loading-spinner'',
        el_html = loading_html_main ''Generating forecast...''\<rparr>] \<and>
   length (overlays (page_after (forecastForm_submit upload_page))) = 1"
proof -
  have a: "\<not> sublist ''clear_dataset'' ''http://localhost:5000/upload''"
    by (simp add: includes_str_sublist [symmetric])
  have b: "sublist ''clear_dataset'' ''http://localhost:5000/clear_dataset''"
    by (simp add: includes_str_sublist [symmetric])
  have c: "overlays upload_page = []"
    by (simp add: overlays_def upload_page_def has_class_def ascii_space_def)
  have d: "product_value upload_page \<noteq> []" "parseInt (days_value upload_page) = Some 30"
    by (simp_all add: upload_page_def parseInt_examples)
  show ?thesis
    using submit_shows_loading_overlay
      [of "\<lparr>form_action = ''http://localhost:5000/upload'', loadingMessage = None\<rparr>" upload_page]
      submit_shows_loading_overlay
      [of "\<lparr>form_action = ''http://localhost:5000/clear_dataset'', loadingMessage = None\<rparr>"
        upload_page]
      submit_shows_loading_overlay
      [of "\<lparr>form_action = ''http://localhost:5000/upload'', loadingMessage = None\<rparr>"
        "select_files [\<lparr>file_name = ''sales.csv'', file_size = 2048\<rparr>] upload_page"]
      a b c d upload_page_facts
    by simp
qed






text \<open>
  C7. Each call of \<^verbatim>\<open>showError\<close> of the second script adds one panel and starts one
  timer, of 10000 milliseconds, that closes it; the timers started before stay as they
  are. Whatever happens on the page afterwards while it stays loaded (files selected,
  forms submitted, panels closed by hand, time passing), the timer is still waiting, with the rest of its delay, as long as less than
  10000 milliseconds have passed: nothing cancels it. Once 10000 milliseconds have passed
  the timer has run and the panel is out of the document.
\<close>

theorem error_panel_closed_after_delay:
  assumes "wf_page p" and "wf_timers p"
  shows "timers (showError_part m p) = timers p @ [(10000, next_key p)] \<and>
         elements_of (next_key p) (showError_part m p) =
           [\<lparr>el_key = next_key p, el_id = [], el_class = error_container_class,
              el_html = error_html m\<rparr>] \<and>
         (elapsed evs < 10000 \<longrightarrow>
            timers_of (next_key p) (run evs (showError_part m p)) =
              [(10000 - elapsed evs, next_key p)]) \<and>
         (10000 \<le> elapsed evs \<longrightarrow>
            timers_of (next_key p) (run evs (showError_part m p)) = [] \<and>
            elements_of (next_key p) (run evs (showError_part m p)) = [])"
proof -
  let ?e = "\<lparr>el_key = next_key p, el_id = [], el_class = error_container_class,
      el_html = error_html m\<rparr>"
  have old: "filter (\<lambda>e. el_key e = next_key p) (doc p) = []"
    using assms(1) by (auto simp: filter_empty_conv dest: wf_key_less)
  have ins: "filter (\<lambda>e. el_key e = next_key p) (insert_after k ?e xs) = [?e]"
    if "filter (\<lambda>e. el_key e = next_key p) xs = []" and "k \<in> el_key ` set xs" for k xs
    using that by (induction xs) (auto split: if_splits)
  have panel: "elements_of (next_key p) (showError_part m p) = [?e]"
  proof (cases "querySelector ''container'' p")
    case None
    with old show ?thesis
      by (simp add: elements_of_def showError_part_body)
  next
    case (Some c)
    then have "c \<in> set (doc p)"
      by (auto simp: querySelector_def dest: find_Some_in_set)
    with old Some show ?thesis
      by (simp add: elements_of_def showError_part_container ins)
  qed
  have "filter (\<lambda>t. snd t = next_key p) (timers p) = []"
    using assms(2) by (auto simp: wf_timers_def list_all_iff filter_empty_conv)
  then have waiting: "timers_of (next_key p) (showError_part m p) = [(10000, next_key p)]"
    by (simp add: timers_of_def)
  have "next_key p < next_key (showError_part m p)"
    by simp
  from run_pending [OF this waiting, of evs] panel show ?thesis
    by simp
qed

text \<open>
  One call on the upload page. After 4000 milliseconds the timer has 6000 left; a file is
  selected and rejected, and 6000 milliseconds later the first panel is gone.
\<close>

theorem error_panel_closed_after_delay_witness:
  "wf_page upload_page \<and> wf_timers upload_page \<and>
   elapsed [Elapse 4000] < 10000 \<and>
   timers_of 2 (run [Elapse 4000] (showError_part ''File size exceeds 16MB limit'' upload_page))
     = [(6000, 2)] \<and>
   10000 \<le> elapsed [Elapse 4000, Select [\<lparr>file_name = ''notes.txt'', file_size = 2048\<rparr>],
                     Elapse 6000] \<and>
   elements_of 2
     (run [Elapse 4000, Select [\<lparr>file_name = ''notes.txt'', file_size = 2048\<rparr>], Elapse 6000]
        (showError_part ''File size exceeds 16MB limit'' upload_page)) = [] \<and>
   timers_of 2
     (run [Elapse 4000, Select [\<lparr>file_name = ''notes.txt'', file_size = 2048\<rparr>], Elapse 6000]
        (showError_part ''File size exceeds 16MB limit'' upload_page)) = []"
proof -
  have wf: "wf_page upload_page" "wf_timers upload_page"
    by (simp_all add: upload_page_facts wf_timers_def)
  show ?thesis
    using error_panel_closed_after_delay [OF wf, of "''File size exceeds 16MB limit''"
        "[Elapse 4000]"]
      error_panel_closed_after_delay [OF wf, of "''File size exceeds 16MB limit''"
        "[Elapse 4000, Select [\<lparr>file_name = ''notes.txt'', file_size = 2048\<rparr>], Elapse 6000]"]
      wf
    by (simp add: upload_page_facts)
qed

text \<open>
  C8. With no file selected, the submit handler of the upload form cancels the submission
  and appends no loading overlay; on a page that has the error panel or a
  \<^verbatim>\<open>.card-body\<close> for it, it shows the error panel.
\<close>

theorem upload_submit_without_file:
  "input_files p = [] \<Longrightarrow>
   defaultPrevented (uploadForm_submit p) \<and>
   length (overlays (page_after (uploadForm_submit p))) = length (overlays p) \<and>
   (error_host p \<longrightarrow>
      thrown (uploadForm_submit p) = None \<and>
      error_panel_main ''Please select a file to upload.'' (page_after (uploadForm_submit p)))"
  using reject_shows [of p "''Please select a file to upload.''"]
  by (simp add: uploadForm_submit_def reject_overlays)

text \<open>
  The upload page has no file selected.
\<close>

theorem upload_submit_without_file_witness:
  "input_files upload_page = [] \<and> error_host upload_page \<and>
   defaultPrevented (uploadForm_submit upload_page) \<and>
   overlays (page_after (uploadForm_submit upload_page)) = [] \<and>
   thrown (uploadForm_submit upload_page) = None \<and>
   error_panel_main ''Please select a file to upload.'' (page_after (uploadForm_submit upload_page))"
proof -
  have files: "input_files upload_page = []"
    by (simp add: upload_page_def)
  have "overlays upload_page = []"
    by (simp add: overlays_def upload_page_def has_class_def ascii_space_def)
  with upload_submit_without_file [OF files] files upload_page_facts(2) show ?thesis
    by simp
qed

text \<open>
  C9. A file whose name ends with \<^verbatim>\<open>.csv\<close> and whose size is exactly 16,777,216 bytes:
  the change handler of the second script only writes name and size into the panel with id
  \<^verbatim>\<open>file-info\<close> if there is one. It adds no element and no timer, so no error is
  shown, and the input keeps its files and its value.
\<close>

theorem csv_at_size_limit_accepted:
  assumes "suffix ''.csv'' (toLowerCase (file_name f))" and "file_size f = 16777216"
  shows "fileUpload_change (select_files (f # fs) p) =
           (case getElementById ''file-info'' p of
              Some e \<Rightarrow> set_innerHTML (el_key e)
                          (file_info_html_part (file_name f) (formatFileSize 16777216))
                          (select_files (f # fs) p)
            | None \<Rightarrow> select_files (f # fs) p) \<and>
         length (doc (fileUpload_change (select_files (f # fs) p))) = length (doc p) \<and>
         timers (fileUpload_change (select_files (f # fs) p)) = timers p \<and>
         input_files (fileUpload_change (select_files (f # fs) p)) = f # fs \<and>
         input_value (fileUpload_change (select_files (f # fs) p)) =
           input_value (select_files (f # fs) p)"
proof -
  have "fileUpload_change (select_files (f # fs) p) =
     (case getElementById ''file-info'' p of
        Some e \<Rightarrow> set_innerHTML (el_key e)
                    (file_info_html_part (file_name f) (formatFileSize (file_size f)))
                    (select_files (f # fs) p)
      | None \<Rightarrow> select_files (f # fs) p)"
    using fileUpload_change_accepted [of "select_files (f # fs) p" f fs] assms
    by (simp add: endsWith_suffix)
  then show ?thesis
    using assms(2) by (cases "getElementById ''file-info'' p") simp_all
qed

text \<open>
  A \<^verbatim>\<open>Sales.CSV\<close> of exactly 16,777,216 bytes on the page with the panel.
\<close>

theorem csv_at_size_limit_accepted_witness:
  "suffix ''.csv'' (toLowerCase ''Sales.CSV'') \<and>
   length (doc (fileUpload_change
     (select_files [\<lparr>file_name = ''Sales.CSV'', file_size = 16777216\<rparr>] info_page)))
     = length (doc info_page) \<and>
   timers (fileUpload_change
     (select_files [\<lparr>file_name = ''Sales.CSV'', file_size = 16777216\<rparr>] info_page)) = [] \<and>
   input_files (fileUpload_change
     (select_files [\<lparr>file_name = ''Sales.CSV'', file_size = 16777216\<rparr>] info_page))
     = [\<lparr>file_name = ''Sales.CSV'', file_size = 16777216\<rparr>] \<and>
   input_value (fileUpload_change
     (select_files [\<lparr>file_name = ''Sales.CSV'', file_size = 16777216\<rparr>] info_page)) \<noteq> []"
proof -
  have csv: "suffix ''.csv'' (toLowerCase ''Sales.CSV'')"
    by (simp add: endsWith_suffix [symmetric] endsWith_def toLowerCase_def toLowerChar_def
        upper_lower_def)
  have "input_value (select_files [\<lparr>file_name = ''Sales.CSV'', file_size = 16777216\<rparr>] info_page)
      \<noteq> []"
    by (simp add: select_files_def)
  then show ?thesis
    using csv_at_size_limit_accepted
      [of "\<lparr>file_name = ''Sales.CSV'', file_size = 16777216\<rparr>" "[]" info_page]
      csv info_page_facts
    by simp
qed

text \<open>
  C10. In main.js, whatever the sequence of \<^verbatim>\<open>showError\<close> calls, a document with
  at most one element of id \<^verbatim>\<open>error-alert\<close> keeps at most one; and a call
  that finds the panel writes the new message into it and adds no element.
\<close>

theorem showError_main_one_panel:
  "count_id ''error-alert'' p \<le> 1 \<Longrightarrow>
   count_id ''error-alert'' (showErrors_main ms p) \<le> 1 \<and>
   (\<forall>e m. getElementById ''error-alert'' p = Some e \<longrightarrow>
      (\<exists>p'. showError_main m p = Inr p' \<and> length (doc p') = length (doc p) \<and>
            getElementById ''error-alert'' p' = Some (e\<lparr>el_html := error_html m\<rparr>)))"
proof
  assume "count_id ''error-alert'' p \<le> 1"
  then show "count_id ''error-alert'' (showErrors_main ms p) \<le> 1"
    by (rule showErrors_main_count)
next
  show "\<forall>e m. getElementById ''error-alert'' p = Some e \<longrightarrow>
      (\<exists>p'. showError_main m p = Inr p' \<and> length (doc p') = length (doc p) \<and>
            getElementById ''error-alert'' p' = Some (e\<lparr>el_html := error_html m\<rparr>))"
    by (simp add: showError_main_existing getElementById_set_innerHTML)
qed

text \<open>
  Two calls on the upload page: the first adds the panel, the second rewrites it.
\<close>

theorem showError_main_one_panel_witness:
  "count_id ''error-alert'' upload_page \<le> 1 \<and>
   count_id ''error-alert'' (showErrors_main [''first'', ''second''] upload_page) = 1 \<and>
   (\<exists>p1 p2 e. showError_main ''first'' upload_page = Inr p1 \<and>
      getElementById ''error-alert'' p1 = Some e \<and>
      showError_main ''second'' p1 = Inr p2 \<and> length (doc p2) = length (doc p1) \<and>
      getElementById ''error-alert'' p2 = Some (e\<lparr>el_html := error_html ''second''\<rparr>))"
proof -
  have start: "count_id ''error-alert'' upload_page \<le> 1"
    by (simp add: count_id_def upload_page_def)
  have host: "querySelector ''card-body'' upload_page
      = Some \<lparr>el_key = 1, el_id = [], el_class = ''card-body'', el_html = []\<rparr>"
    by (simp add: querySelector_def upload_page_def has_class_def ascii_space_def)
  have none: "getElementById ''error-alert'' upload_page = None"
    by (simp add: getElementById_def upload_page_def)
  obtain p1 where p1: "showError_main ''first'' upload_page = Inr p1"
    using showError_main_succeeds [of upload_page "''first''"] host
    by (auto simp: error_host_def)
  then have "error_panel_main ''first'' p1"
    by (rule showError_main_panel)
  then obtain e where e: "getElementById ''error-alert'' p1 = Some e"
    by (auto simp: error_panel_main_def split: option.splits)
  have "count_id ''error-alert'' p1 \<le> 1"
    using showError_main_one_panel [OF start, of "[''first'']"] p1 by simp
  moreover have "count_id ''error-alert'' p1 \<noteq> 0"
    using e by (auto simp: getElementById_def count_id_def filter_empty_conv find_None_iff
        dest: find_Some_in_set)
  ultimately have one: "count_id ''error-alert'' p1 = 1"
    by simp
  from showError_main_one_panel [OF start, of "[''first'', ''second'']"]
  have "count_id ''error-alert'' (showErrors_main [''second''] p1) \<le> 1"
    using p1 by simp
  moreover from showError_main_one_panel [of p1 "[]"] one e
  obtain p2 where p2: "showError_main ''second'' p1 = Inr p2"
    "length (doc p2) = length (doc p1)"
    "getElementById ''error-alert'' p2 = Some (e\<lparr>el_html := error_html ''second''\<rparr>)"
    by auto
  moreover have "count_id ''error-alert'' p2 \<noteq> 0"
    using p2(3) by (auto simp: getElementById_def count_id_def filter_empty_conv
        dest: find_Some_in_set)
  ultimately have "count_id ''error-alert'' (showErrors_main [''first'', ''second''] upload_page) = 1"
    using p1 by simp
  with start p1 e p2 show ?thesis
    by blast
qed

end
